theory Spec2Isabelle
  imports Main "HOL-Library.AList"
begin

section \<open>Python values, exceptions and subprocesses\<close>

text \<open>
  The two scripts are \<^verbatim>\<open>deploy_watcher.py\<close> (class \<^verbatim>\<open>DeployWatcher\<close>) and
  \<^verbatim>\<open>deploy_agent.py\<close> (class \<^verbatim>\<open>DeploymentAgent\<close>). Network replies, process exit
  codes and the arrival of an interrupt are inputs of the model; everything the scripts
  decide from them is computed by the definitions below.

  An exception is a value. \<open>KeyboardInterrupt\<close> is the only one that is not a subclass of
  Python's \<^verbatim>\<open>Exception\<close>, so an \<^verbatim>\<open>except Exception\<close> clause lets it through.
\<close>

datatype exn =
    KeyboardInterrupt
  | FileNotFoundError
  | TimeoutExpired
  | CalledProcessError
  | PermissionError
  | FileExistsError
  | NotADirectoryError
  | IsADirectoryError
  | ValueError
  | OtherError

definition is_Exception :: "exn \<Rightarrow> bool" where
  "is_Exception e = (e \<noteq> KeyboardInterrupt)"

datatype 'a io = Returns 'a | Raises exn

text \<open>
  \<^verbatim>\<open>subprocess.run(argv, ...)\<close> either completes with a return code or raises (the
  program is missing, the timeout expires, an interrupt arrives). A \<open>shell\<close> says what each
  command line does when it is run.
\<close>

datatype proc_result = Exit int | Fails exn

type_synonym shell = "string list \<Rightarrow> proc_result"

text \<open>
  The values an expression \<^verbatim>\<open>x and y\<close> over a revision and a comparison can take, with
  Python's truth test: \<^verbatim>\<open>None\<close> and the empty string are false.
\<close>

datatype pyval = PNone | PStr string | PBool bool

fun truthy :: "pyval \<Rightarrow> bool" where
  "truthy PNone = False"
| "truthy (PStr s) = (s \<noteq> [])"
| "truthy (PBool b) = b"

fun of_sha :: "string option \<Rightarrow> pyval" where
  "of_sha None = PNone"
| "of_sha (Some s) = PStr s"

definition py_and :: "pyval \<Rightarrow> pyval \<Rightarrow> pyval" where
  "py_and a b = (if truthy a then b else a)"

definition py_or :: "pyval \<Rightarrow> pyval \<Rightarrow> pyval" where
  "py_or a b = (if truthy a then a else b)"

section \<open>The deployment agent's main flow\<close>

text \<open>
  \<^verbatim>\<open>DeploymentAgent.run\<close> calls six stage methods in a fixed order and returns
  \<^verbatim>\<open>False\<close> at the first one that does not return \<^verbatim>\<open>True\<close>; an exception of a
  stage leaves \<^verbatim>\<open>run\<close> at once. A \<open>stages\<close> record holds what each stage does when it is
  called: the two calls of \<^verbatim>\<open>clone_repository\<close>, then \<^verbatim>\<open>setup_backend\<close>,
  \<^verbatim>\<open>setup_frontend\<close>, \<^verbatim>\<open>build_docker_images\<close> and \<^verbatim>\<open>deploy\<close>. The second component of the result lists the step headings
  (\<^verbatim>\<open>[Step k/5]\<close>) that were logged, that is, the steps that were entered.
\<close>

record stages =
  fetch_frontend :: "bool io"
  fetch_backend :: "bool io"
  prepare_backend :: "bool io"
  prepare_frontend :: "bool io"
  build_images :: "bool io"
  deploy_services :: "bool io"

definition agent_run :: "stages \<Rightarrow> bool io \<times> nat list" where
  "agent_run st =
     (if fetch_frontend st \<noteq> Returns True then (fetch_frontend st, [1])
      else if fetch_backend st \<noteq> Returns True then (fetch_backend st, [1])
      else if prepare_backend st \<noteq> Returns True then (prepare_backend st, [1, 2])
      else if prepare_frontend st \<noteq> Returns True then (prepare_frontend st, [1, 2, 3])
      else if build_images st \<noteq> Returns True
        then (build_images st, [1, 2, 3, 4])
      else if deploy_services st \<noteq> Returns True then (deploy_services st, [1, 2, 3, 4, 5])
      else (Returns True, [1, 2, 3, 4, 5]))"

text \<open>
  \<^verbatim>\<open>main\<close> ends with \<^verbatim>\<open>sys.exit(0 if success else 1)\<close>; an exception that leaves
  \<^verbatim>\<open>run\<close> is not caught and the interpreter exits with a nonzero status.
\<close>

definition agent_main :: "stages \<Rightarrow> int" where
  "agent_main st =
     (case fst (agent_run st) of
        Returns success \<Rightarrow> (if success then 0 else 1)
      | Raises e \<Rightarrow> (if e = KeyboardInterrupt then 130 else 1))"

definition all_stages_ok :: "stages \<Rightarrow> bool" where
  "all_stages_ok st \<longleftrightarrow>
     fetch_frontend st = Returns True \<and> fetch_backend st = Returns True \<and>
     prepare_backend st = Returns True \<and> prepare_frontend st = Returns True \<and>
     build_images st = Returns True \<and> deploy_services st = Returns True"

section \<open>The watcher\<close>

record watcher =
  fe_last_sha :: "string option"
  be_last_sha :: "string option"

text \<open>\<^verbatim>\<open>__init__\<close>: both revisions start as \<^verbatim>\<open>None\<close>.\<close>

definition init_watcher :: watcher where
  "init_watcher = \<lparr>fe_last_sha = None, be_last_sha = None\<rparr>"

text \<open>
  One round of queries to the hosting API. \<^verbatim>\<open>extract_repo_info\<close> raises
  \<^verbatim>\<open>ValueError\<close> on a URL it cannot read (\<open>Bad_locator\<close>);
  \<^verbatim>\<open>get_latest_commit_sha\<close> catches every \<^verbatim>\<open>Exception\<close> and returns the
  \<^verbatim>\<open>sha\<close> field or \<^verbatim>\<open>None\<close> (\<open>Heads\<close>); an interrupt passes through both
  (\<open>Poll_interrupted\<close>).
\<close>

datatype poll = Bad_locator | Heads "string option" "string option" | Poll_interrupted

text \<open>\<^verbatim>\<open>fe_updated = fe_sha and fe_sha != self.fe_last_sha\<close>\<close>

definition updated :: "string option \<Rightarrow> string option \<Rightarrow> pyval" where
  "updated sha last_sha = py_and (of_sha sha) (PBool (sha \<noteq> last_sha))"

definition has_changed :: "string option \<Rightarrow> string option \<Rightarrow> bool" where
  "has_changed last_sha sha = truthy (updated sha last_sha)"

definition check_for_updates :: "watcher \<Rightarrow> poll \<Rightarrow> (bool \<times> string option \<times> string option) io" where
  "check_for_updates w p =
     (case p of
        Bad_locator \<Rightarrow> Returns (False, None, None)
      | Poll_interrupted \<Rightarrow> Raises KeyboardInterrupt
      | Heads fe_sha be_sha \<Rightarrow>
          (let fe_updated = updated fe_sha (fe_last_sha w);
               be_updated = updated be_sha (be_last_sha w)
           in if truthy (py_or fe_updated be_updated)
              then Returns (True, fe_sha, be_sha)
              else Returns (False, fe_sha, be_sha)))"

text \<open>
  \<^verbatim>\<open>trigger_redeploy\<close>. The agent is a child process: it runs its stages and exits
  (\<open>Agent_ran\<close>), it is killed by a signal, which \<^verbatim>\<open>subprocess\<close> reports as the negated
  signal number (\<open>Agent_killed n\<close> for signal \<open>n + 1\<close>), or \<^verbatim>\<open>subprocess.run\<close> raises:
  the ten minute timeout, an interrupt (\<open>Agent_fails\<close>).
\<close>

datatype agent_proc = Agent_ran stages | Agent_killed nat | Agent_fails exn

definition returncode :: "agent_proc \<Rightarrow> int io" where
  "returncode a =
     (case a of
        Agent_ran st \<Rightarrow> Returns (agent_main st)
      | Agent_killed n \<Rightarrow> Returns (- int (Suc n))
      | Agent_fails e \<Rightarrow> Raises e)"

record redeploy_env =
  agent :: agent_proc
  sh :: shell

definition compose_commands :: "(string list \<times> string) list" where
  "compose_commands = [([''docker'', ''compose''], ''-p''), ([''docker-compose''], ''--project-name'')]"

definition rebuild_cmd :: "string list \<Rightarrow> string \<Rightarrow> string list" where
  "rebuild_cmd cmd_base project_flag =
     cmd_base @ [project_flag, ''jalindeploy'', ''up'', ''-d'', ''--build'', ''--force-recreate'',
                 ''frontend'', ''backend'']"

text \<open>
  The \<^verbatim>\<open>for cmd_base, project_flag in compose_commands\<close> loop: the result is
  \<^verbatim>\<open>rebuild_result\<close> (\<open>None\<close> when no form of the command was usable) and the command
  lines that were run, in order.
\<close>

fun try_compose :: "shell \<Rightarrow> (string list \<times> string) list \<Rightarrow> int option io \<times> string list list" where
  "try_compose s [] = (Returns None, [])"
| "try_compose s ((cmd_base, project_flag) # rest) =
     (let test_cmd = cmd_base @ [''version''] in
      case s test_cmd of
        Fails e \<Rightarrow>
          (if e = FileNotFoundError \<or> e = TimeoutExpired
           then (case try_compose s rest of (r, tr) \<Rightarrow> (r, test_cmd # tr))
           else (Raises e, [test_cmd]))
      | Exit rc \<Rightarrow>
          (if rc = 0 then
             (case s (rebuild_cmd cmd_base project_flag) of
                Exit rc' \<Rightarrow> (Returns (Some rc'), [test_cmd, rebuild_cmd cmd_base project_flag])
              | Fails e \<Rightarrow>
                  (if e = FileNotFoundError \<or> e = TimeoutExpired
                   then (case try_compose s rest of
                           (r, tr) \<Rightarrow> (r, test_cmd # rebuild_cmd cmd_base project_flag # tr))
                   else (Raises e, [test_cmd, rebuild_cmd cmd_base project_flag])))
           else (case try_compose s rest of (r, tr) \<Rightarrow> (r, test_cmd # tr))))"

text \<open>The outer \<^verbatim>\<open>except Exception\<close> of \<^verbatim>\<open>trigger_redeploy\<close> returns \<^verbatim>\<open>False\<close>.\<close>

definition caught :: "exn \<Rightarrow> bool io" where
  "caught e = (if is_Exception e then Returns False else Raises e)"

definition trigger_redeploy :: "redeploy_env \<Rightarrow> bool io \<times> string list list" where
  "trigger_redeploy env =
     (case returncode (agent env) of
        Raises e \<Rightarrow> (caught e, [])
      | Returns result_returncode \<Rightarrow>
          (if result_returncode = 0 then
             (case try_compose (sh env) compose_commands of
                (Raises e, tr) \<Rightarrow> (caught e, tr)
              | (Returns None, tr) \<Rightarrow> (Returns False, tr)
              | (Returns (Some rc), tr) \<Rightarrow> (Returns (rc = 0), tr))
           else (Returns False, [])))"

text \<open>
  The body of the \<^verbatim>\<open>while True\<close> loop of \<^verbatim>\<open>DeployWatcher.run\<close>. A \<open>tick\<close> is what
  the outside world does during one iteration: \<open>log_fault\<close> is an exception raised by the
  first statement of the \<^verbatim>\<open>try\<close> block, \<open>sleep_fault\<close> one raised by
  \<^verbatim>\<open>time.sleep\<close> after it.
\<close>

record tick =
  log_fault :: "exn option"
  polled :: poll
  redeploy :: redeploy_env
  sleep_fault :: "exn option"

text \<open>Lines 212 to 215: the only assignments to the stored revisions inside the loop.\<close>

definition commit :: "watcher \<Rightarrow> string option \<Rightarrow> string option \<Rightarrow> watcher" where
  "commit w fe_sha be_sha =
     (let w1 = (if truthy (of_sha fe_sha) then w\<lparr>fe_last_sha := fe_sha\<rparr> else w)
      in if truthy (of_sha be_sha) then w1\<lparr>be_last_sha := be_sha\<rparr> else w1)"

text \<open>Whether the iteration reaches \<^verbatim>\<open>trigger_redeploy\<close>, that is, starts a deploy cycle.\<close>

definition cycle_triggered :: "watcher \<Rightarrow> tick \<Rightarrow> bool" where
  "cycle_triggered w t =
     (case log_fault t of
        Some e \<Rightarrow> False
      | None \<Rightarrow>
          (case check_for_updates w (polled t) of
             Raises e \<Rightarrow> False
           | Returns (has_updates, fe_sha, be_sha) \<Rightarrow> has_updates))"

text \<open>The \<^verbatim>\<open>try\<close> block: the exception that leaves it, if any, and the watcher after it.\<close>

definition try_block :: "watcher \<Rightarrow> tick \<Rightarrow> exn option \<times> watcher" where
  "try_block w t =
     (case log_fault t of
        Some e \<Rightarrow> (Some e, w)
      | None \<Rightarrow>
          (case check_for_updates w (polled t) of
             Raises e \<Rightarrow> (Some e, w)
           | Returns (has_updates, fe_sha, be_sha) \<Rightarrow>
               (if has_updates then
                  (case fst (trigger_redeploy (redeploy t)) of
                     Raises e \<Rightarrow> (Some e, w)
                   | Returns ok \<Rightarrow> (if ok then (None, commit w fe_sha be_sha) else (None, w)))
                else (None, w))))"

text \<open>
  How the process ends. \<open>Break\<close>: the loop was left by \<^verbatim>\<open>break\<close>, \<^verbatim>\<open>run\<close> and
  \<^verbatim>\<open>main\<close> return and the exit status is 0. \<open>Uncaught e\<close>: the exception \<open>e\<close> left
  \<^verbatim>\<open>run\<close> and the interpreter ends with a traceback and a nonzero status.
  \<open>Running\<close>: the given ticks are used up and the loop is still going.
\<close>

datatype ending = Break | Uncaught exn | Running

fun run_loop :: "watcher \<Rightarrow> tick list \<Rightarrow> ending \<times> watcher" where
  "run_loop w [] = (Running, w)"
| "run_loop w (t # ts) =
     (case try_block w t of
        (Some e, w') \<Rightarrow>
          (if e = KeyboardInterrupt then (Break, w')
           else if is_Exception e then
             (case sleep_fault t of None \<Rightarrow> run_loop w' ts | Some e' \<Rightarrow> (Uncaught e', w'))
           else (Uncaught e, w'))
      | (None, w') \<Rightarrow>
          (case sleep_fault t of None \<Rightarrow> run_loop w' ts | Some e' \<Rightarrow> (Uncaught e', w')))"

text \<open>The start of \<^verbatim>\<open>run\<close>: the first query, inside \<^verbatim>\<open>try ... except Exception\<close>.\<close>

definition startup :: "watcher \<Rightarrow> poll \<Rightarrow> watcher io" where
  "startup w p =
     (case p of
        Bad_locator \<Rightarrow> Returns w
      | Poll_interrupted \<Rightarrow> Raises KeyboardInterrupt
      | Heads fe_sha be_sha \<Rightarrow> Returns (w\<lparr>fe_last_sha := fe_sha, be_last_sha := be_sha\<rparr>))"

definition run :: "poll \<Rightarrow> tick list \<Rightarrow> ending \<times> watcher" where
  "run p ts =
     (case startup init_watcher p of
        Raises e \<Rightarrow> (Uncaught e, init_watcher)
      | Returns w \<Rightarrow> run_loop w ts)"

definition exit_status_zero :: "ending \<Rightarrow> bool" where
  "exit_status_zero x = (x = Break)"

section \<open>Working trees\<close>

text \<open>
  A directory tree on disk, seen from its root: a path is the list of its components (the
  empty path is the root itself) and the tree lists what is at each path. The first entry for
  a path is the one that counts.
\<close>

type_synonym path = "string list"

datatype entry = File string | Dir

type_synonym tree = "(path \<times> entry) list"

definition lookup :: "tree \<Rightarrow> path \<Rightarrow> entry option" where
  "lookup t p = map_of t p"

definition path_exists :: "tree \<Rightarrow> path \<Rightarrow> bool" where
  "path_exists t p = (lookup t p \<noteq> None)"

definition is_dir :: "tree \<Rightarrow> path \<Rightarrow> bool" where
  "is_dir t p = (lookup t p = Some Dir)"

definition store :: "tree \<Rightarrow> path \<Rightarrow> entry \<Rightarrow> tree" where
  "store t p e = AList.update p e t"

definition iterdir :: "tree \<Rightarrow> path \<Rightarrow> path list" where
  "iterdir t d = filter (\<lambda>p. p \<noteq> [] \<and> butlast p = d) (map fst t)"

text \<open>
  \<^verbatim>\<open>Path.mkdir(parents=True, exist_ok=True)\<close>: an existing directory is accepted, a file
  at the path raises \<^verbatim>\<open>FileExistsError\<close>, a file further up raises
  \<^verbatim>\<open>NotADirectoryError\<close>, a missing directory is created after its parent. The
  recursion runs on the reversed path, so that the parent is the tail.
\<close>

fun mkdir_rev :: "tree \<Rightarrow> path \<Rightarrow> exn + tree" where
  "mkdir_rev t [] =
     (case lookup t [] of
        Some Dir \<Rightarrow> Inr t
      | Some (File c) \<Rightarrow> Inl FileExistsError
      | None \<Rightarrow> Inr (store t [] Dir))"
| "mkdir_rev t (n # rp) =
     (case lookup t (rev (n # rp)) of
        Some Dir \<Rightarrow> Inr t
      | Some (File c) \<Rightarrow> Inl FileExistsError
      | None \<Rightarrow>
          (case mkdir_rev t rp of
             Inl e \<Rightarrow> Inl NotADirectoryError
           | Inr t' \<Rightarrow> Inr (store t' (rev (n # rp)) Dir)))"

definition mkdir_parents :: "tree \<Rightarrow> path \<Rightarrow> exn + tree" where
  "mkdir_parents t p = mkdir_rev t (rev p)"

text \<open>
  \<^verbatim>\<open>shutil.copy2(source_file, target_file)\<close>. When the destination is a directory the
  file goes into it under the source's base name; a directory at the final destination, or
  no directory to hold it, raises. The outside world can make a call fail: before anything
  is written, or after the data are written (while the metadata are copied). \<open>faults\<close> says
  so for the first call on a destination (attempt 0) and for the second (attempt 1).
\<close>

datatype copy_fault = Before_write exn | After_write exn

type_synonym faults = "nat \<Rightarrow> path \<Rightarrow> copy_fault option"

definition copy2 :: "(path \<Rightarrow> copy_fault option) \<Rightarrow> tree \<Rightarrow> string \<Rightarrow> string \<Rightarrow> path \<Rightarrow> exn option \<times> tree" where
  "copy2 flt t file c target_file =
     (let dst = (if is_dir t target_file then target_file @ [file] else target_file) in
      if is_dir t dst then (Some IsADirectoryError, t)
      else if \<not> is_dir t (butlast dst) then (Some FileNotFoundError, t)
      else (case flt dst of
              Some (Before_write e) \<Rightarrow> (Some e, t)
            | Some (After_write e) \<Rightarrow> (Some e, store t dst (File c))
            | None \<Rightarrow> (None, store t dst (File c))))"

text \<open>
  Lines 123 to 137 of \<^verbatim>\<open>_merge_directories\<close>: one copy, and after a
  \<^verbatim>\<open>PermissionError\<close> a second one (the two \<^verbatim>\<open>chmod\<close> calls around it change
  no contents; their failures count as faults of the second attempt). Every other exception
  is raised again.
\<close>

definition copy_file :: "faults \<Rightarrow> tree \<Rightarrow> string \<Rightarrow> string \<Rightarrow> path \<Rightarrow> exn option \<times> tree" where
  "copy_file flt t file c target_file =
     (case copy2 (flt 0) t file c target_file of
        (None, t1) \<Rightarrow> (None, t1)
      | (Some e, t1) \<Rightarrow>
          (if e = PermissionError then copy2 (flt 1) t1 file c target_file else (Some e, t1)))"

definition preserve_files :: "string set" where
  "preserve_files = {''.env.local'', ''.env.local.example'', ''Dockerfile''}"

text \<open>The inner loop \<^verbatim>\<open>for file in files\<close>; each file comes with its contents.\<close>

fun copy_files :: "faults \<Rightarrow> tree \<Rightarrow> path \<Rightarrow> (string \<times> string) list \<Rightarrow> exn option \<times> tree" where
  "copy_files flt t target_subdir [] = (None, t)"
| "copy_files flt t target_subdir ((file, c) # files) =
     (let target_file = target_subdir @ [file] in
      if file \<in> preserve_files \<and> path_exists t target_file
      then copy_files flt t target_subdir files
      else (case copy_file flt t file c target_file of
              (None, t') \<Rightarrow> copy_files flt t' target_subdir files
            | (Some e, t') \<Rightarrow> (Some e, t')))"

text \<open>
  The outer loop \<^verbatim>\<open>for root, dirs, files in os.walk(source_path)\<close>. An item of the walk
  is the directory's path relative to the source root (\<open>[]\<close> for \<^verbatim>\<open>'.'\<close>) and its files.
\<close>

type_synonym walk = "(path \<times> (string \<times> string) list) list"

fun merge_walk :: "faults \<Rightarrow> tree \<Rightarrow> walk \<Rightarrow> exn option \<times> tree" where
  "merge_walk flt t [] = (None, t)"
| "merge_walk flt t ((rel_path, files) # rest) =
     (case (if rel_path = [] then Inr t else mkdir_parents t rel_path) of
        Inl e \<Rightarrow> (Some e, t)
      | Inr t1 \<Rightarrow>
          (case copy_files flt t1 rel_path files of
             (None, t2) \<Rightarrow> merge_walk flt t2 rest
           | (Some e, t2) \<Rightarrow> (Some e, t2)))"

text \<open>
  \<^verbatim>\<open>_merge_directories(source_dir, target_dir)\<close>: the exception that leaves it, if any,
  and the target tree as it is then.
\<close>

definition merge_directories :: "faults \<Rightarrow> walk \<Rightarrow> tree \<Rightarrow> exn option \<times> tree" where
  "merge_directories flt source_walk target =
     (case mkdir_parents target [] of
        Inl e \<Rightarrow> (Some e, target)
      | Inr t0 \<Rightarrow> merge_walk flt t0 source_walk)"

text \<open>
  \<^verbatim>\<open>os.walk\<close> over a tree: one item for each directory, in the order of the listing,
  with the files directly inside it; nothing when the root is not a directory.
\<close>

definition files_in :: "tree \<Rightarrow> path \<Rightarrow> (string \<times> string) list" where
  "files_in src d =
     concat (map (\<lambda>p. case lookup src p of
                         Some (File c) \<Rightarrow> (if p \<noteq> [] \<and> butlast p = d then [(last p, c)] else [])
                       | Some Dir \<Rightarrow> []
                       | None \<Rightarrow> [])
                 (remdups (map fst src)))"

definition os_walk :: "tree \<Rightarrow> walk" where
  "os_walk src =
     (if is_dir src [] then map (\<lambda>d. (d, files_in src d)) (filter (is_dir src) (remdups (map fst src)))
      else [])"

text \<open>
  \<^verbatim>\<open>verify_repo_cloned(target_dir, repo_name, required_files)\<close>. \<open>listable\<close> is false
  when \<^verbatim>\<open>iterdir\<close> raises on the directory.
\<close>

definition verify_repo_cloned :: "bool \<Rightarrow> tree \<Rightarrow> string list \<Rightarrow> bool" where
  "verify_repo_cloned listable target_dir required_files =
     (if \<not> path_exists target_dir [] then False
      else if \<not> is_dir target_dir [] then False
      else if \<not> listable then False
      else if iterdir target_dir [] = [] then False
      else if required_files \<noteq> [] \<and>
              filter (\<lambda>file_name. \<not> path_exists target_dir [file_name]) required_files \<noteq> []
        then False
      else True)"

section \<open>Fetching a repository\<close>

text \<open>
  What a download gives: the request fails (\<open>Request_failed\<close>), the body cannot be stored,
  opened as a zip file or extracted (\<open>Bad_zip\<close>), or it is an archive. An archive is known
  by its member names (\<^verbatim>\<open>namelist()\<close>) and by the tree that \<^verbatim>\<open>extractall\<close> leaves in
  the temporary directory. \<open>rename_ok\<close> is false when \<^verbatim>\<open>extracted_folder.rename\<close> raises
  (the temporary directory and the target are on different file systems, for one).
\<close>

record archive =
  zip_members :: "string list"
  extracted :: tree

datatype download = Request_failed | Bad_zip | Zip archive

record fetch_env =
  github_token :: "string option"
  locator_ok :: bool
  downloaded :: download
  copy_faults :: faults
  rename_ok :: bool
  listable :: bool

datatype fetch_action = Merged | Renamed

text \<open>The part of a tree below a path, with that path as the new root.\<close>

definition subtree :: "tree \<Rightarrow> path \<Rightarrow> tree" where
  "subtree t d =
     map (\<lambda>(p, e). (drop (length d) p, e)) (filter (\<lambda>(p, e). take (length d) p = d) t)"

text \<open>
  \<^verbatim>\<open>clone_repository(repo_url, target_dir, repo_name)\<close>: the value returned, the target
  tree afterwards, and whether a merge or a rename was carried out. Every
  \<^verbatim>\<open>Exception\<close> inside is caught and turned into \<^verbatim>\<open>False\<close>.
\<close>

definition clone_repository :: "fetch_env \<Rightarrow> tree \<Rightarrow> bool \<times> tree \<times> fetch_action list" where
  "clone_repository env target_dir =
     (if \<not> truthy (of_sha (github_token env)) then (False, target_dir, [])
      else if \<not> locator_ok env then (False, target_dir, [])
      else
        (case downloaded env of
           Request_failed \<Rightarrow> (False, target_dir, [])
         | Bad_zip \<Rightarrow> (False, target_dir, [])
         | Zip a \<Rightarrow>
             (case zip_members a of
                [] \<Rightarrow> (False, target_dir, [])
              | first_member # others \<Rightarrow>
                  (let root_folder = takeWhile (\<lambda>ch. ch \<noteq> CHR ''/'') first_member;
                       extracted_folder = (if root_folder = [] then [] else [root_folder])
                   in if \<not> path_exists (extracted a) extracted_folder then (False, target_dir, [])
                      else if path_exists target_dir [] then
                        (case merge_directories (copy_faults env)
                                (os_walk (subtree (extracted a) extracted_folder)) target_dir of
                           (Some e, t') \<Rightarrow> (False, t', [Merged])
                         | (None, t') \<Rightarrow> (verify_repo_cloned (listable env) t' [], t', [Merged]))
                      else if \<not> rename_ok env then (False, target_dir, [])
                      else
                        (let t' = subtree (extracted a) extracted_folder
                         in (verify_repo_cloned (listable env) t' [], t', [Renamed]))))))"

section \<open>Building and deploying\<close>

text \<open>
  The host as the agent sees it when it builds and deploys. A command line is its argument
  list; the working directory, the captured output and the timeout of a call are left out.
\<close>

record host =
  compose_yml :: bool
  frontend_dir :: tree
  backend_dir :: tree
  frontend_listable :: bool
  backend_listable :: bool
  docker :: shell

definition compose_version_cmd :: "string list" where
  "compose_version_cmd = [''docker'', ''compose'', ''version'']"

definition build_cmd_v2 :: "string list" where
  "build_cmd_v2 = [''docker'', ''compose'', ''-p'', ''jalindeploy'', ''build'', ''--parallel'',
                   ''frontend'', ''backend'']"

definition build_cmd_v1 :: "string list" where
  "build_cmd_v1 = [''docker-compose'', ''--project-name'', ''jalindeploy'', ''build'', ''--parallel'',
                   ''frontend'', ''backend'']"

text \<open>
  The probe \<^verbatim>\<open>docker compose version\<close> with \<^verbatim>\<open>check=True\<close>: true for the newer
  form, false for the older one (the three exceptions of the \<^verbatim>\<open>except\<close> clause), or an
  exception that is not caught there.
\<close>

definition compose_v2 :: "shell \<Rightarrow> bool io" where
  "compose_v2 s =
     (case s compose_version_cmd of
        Exit rc \<Rightarrow> Returns (rc = 0)
      | Fails e \<Rightarrow>
          (if e = CalledProcessError \<or> e = FileNotFoundError \<or> e = TimeoutExpired
           then Returns False else Raises e))"

text \<open>
  A call with \<^verbatim>\<open>check=True\<close> inside \<^verbatim>\<open>try ... except CalledProcessError: return False\<close>.
\<close>

definition checked :: "shell \<Rightarrow> string list \<Rightarrow> bool io" where
  "checked s cmd =
     (case s cmd of
        Exit rc \<Rightarrow> Returns (rc = 0)
      | Fails e \<Rightarrow> (if e = CalledProcessError then Returns False else Raises e))"

definition build_docker_images :: "host \<Rightarrow> bool io \<times> string list list" where
  "build_docker_images h =
     (if \<not> compose_yml h then (Returns False, [])
      else if \<not> verify_repo_cloned (frontend_listable h) (frontend_dir h) [] then (Returns False, [])
      else if \<not> verify_repo_cloned (backend_listable h) (backend_dir h) [''requirements.txt'']
        then (Returns False, [])
      else
        (case compose_v2 (docker h) of
           Raises e \<Rightarrow> (Raises e, [compose_version_cmd])
         | Returns v2 \<Rightarrow>
             (let build_cmd = (if v2 then build_cmd_v2 else build_cmd_v1)
              in (checked (docker h) build_cmd, [compose_version_cmd, build_cmd]))))"

text \<open>Calls with \<^verbatim>\<open>check=False\<close>, one after the other: only an exception stops them.\<close>

fun run_all :: "shell \<Rightarrow> string list list \<Rightarrow> exn option \<times> string list list" where
  "run_all s [] = (None, [])"
| "run_all s (cmd # cmds) =
     (case s cmd of
        Exit rc \<Rightarrow> (case run_all s cmds of (r, tr) \<Rightarrow> (r, cmd # tr))
      | Fails e \<Rightarrow> (Some e, [cmd]))"

definition containers_to_remove :: "string list" where
  "containers_to_remove = [''jalin-frontend'', ''jalin-backend'']"

definition old_images :: "string list" where
  "old_images = [''jalindeploy-frontend'', ''jalindeploy-backend'']"

definition stop_and_remove :: "string \<Rightarrow> string list list" where
  "stop_and_remove container_name =
     [[''docker'', ''stop'', container_name], [''docker'', ''rm'', ''-f'', container_name]]"

definition up_cmd :: "bool \<Rightarrow> string list" where
  "up_cmd v2 =
     (if v2 then [''docker'', ''compose''] else [''docker-compose'']) @
     [if v2 then ''-p'' else ''--project-name'', ''jalindeploy'', ''up'', ''-d'', ''--no-deps'', ''--build'',
      ''frontend'', ''backend'']"

definition prune_and_rmi :: "string \<Rightarrow> string list list" where
  "prune_and_rmi image_name =
     [[''docker'', ''image'', ''prune'', ''-f'', ''--filter'', ''dangling=true''],
      [''docker'', ''rmi'', ''-f'', image_name]]"

text \<open>The clean-up loop: \<^verbatim>\<open>except Exception\<close> around the two calls for each image.\<close>

fun cleanup :: "shell \<Rightarrow> string list \<Rightarrow> exn option \<times> string list list" where
  "cleanup s [] = (None, [])"
| "cleanup s (image_name # rest) =
     (case run_all s (prune_and_rmi image_name) of
        (Some e, tr) \<Rightarrow>
          (if is_Exception e then (case cleanup s rest of (r, tr') \<Rightarrow> (r, tr @ tr'))
           else (Some e, tr))
      | (None, tr) \<Rightarrow> (case cleanup s rest of (r, tr') \<Rightarrow> (r, tr @ tr')))"

text \<open>An exception inside the \<^verbatim>\<open>try\<close> of \<^verbatim>\<open>deploy\<close>.\<close>

definition deploy_raised :: "exn \<Rightarrow> bool io" where
  "deploy_raised e = (if e = CalledProcessError then Returns False else Raises e)"

definition deploy :: "host \<Rightarrow> bool io \<times> string list list" where
  "deploy h =
     (case compose_v2 (docker h) of
        Raises e \<Rightarrow> (deploy_raised e, [compose_version_cmd])
      | Returns v2 \<Rightarrow>
          (case run_all (docker h) (concat (map stop_and_remove containers_to_remove)) of
             (Some e, tr) \<Rightarrow> (deploy_raised e, compose_version_cmd # tr)
           | (None, tr) \<Rightarrow>
               (case checked (docker h) (up_cmd v2) of
                  Raises e \<Rightarrow> (Raises e, compose_version_cmd # tr @ [up_cmd v2])
                | Returns False \<Rightarrow> (Returns False, compose_version_cmd # tr @ [up_cmd v2])
                | Returns True \<Rightarrow>
                    (case cleanup (docker h) old_images of
                       (Some e, tr') \<Rightarrow>
                         (deploy_raised e, compose_version_cmd # tr @ [up_cmd v2] @ tr')
                     | (None, tr') \<Rightarrow>
                         (Returns True, compose_version_cmd # tr @ [up_cmd v2] @ tr')))))"

section \<open>Comparing trees, and sample inputs\<close>

text \<open>Two entries are of the same kind when both are files or both are directories.\<close>

fun same_kind :: "entry \<Rightarrow> entry \<Rightarrow> bool" where
  "same_kind Dir Dir = True"
| "same_kind (File c) (File c') = True"
| "same_kind Dir (File c) = False"
| "same_kind (File c) Dir = False"

text \<open>A pipeline in which every stage succeeds, and a docker that accepts every command.\<close>

definition stages_ok :: stages where
  "stages_ok =
     \<lparr>fetch_frontend = Returns True, fetch_backend = Returns True,
      prepare_backend = Returns True, prepare_frontend = Returns True,
      build_images = Returns True, deploy_services = Returns True\<rparr>"

definition docker_ok :: shell where
  "docker_ok = (\<lambda>cmd. Exit 0)"

text \<open>
  The watcher knows the backend at \<open>def456\<close> and the frontend not at all; the poll answers
  \<open>abc123\<close> and \<open>def456\<close>. In \<open>good_tick\<close> the redeploy succeeds, in \<open>bad_tick\<close> the image
  build of the agent fails, in \<open>half_tick\<close> the frontend query gives nothing and the backend
  has moved to \<open>fff999\<close>.
\<close>

definition w_start :: watcher where
  "w_start = \<lparr>fe_last_sha = None, be_last_sha = Some ''def456''\<rparr>"

definition good_tick :: tick where
  "good_tick =
     \<lparr>log_fault = None, polled = Heads (Some ''abc123'') (Some ''def456''),
      redeploy = \<lparr>agent = Agent_ran stages_ok, sh = docker_ok\<rparr>, sleep_fault = None\<rparr>"

definition bad_tick :: tick where
  "bad_tick =
     \<lparr>log_fault = None, polled = Heads (Some ''abc123'') (Some ''def456''),
      redeploy = \<lparr>agent = Agent_ran (stages_ok\<lparr>build_images := Returns False\<rparr>), sh = docker_ok\<rparr>,
      sleep_fault = None\<rparr>"

definition half_tick :: tick where
  "half_tick =
     \<lparr>log_fault = None, polled = Heads None (Some ''fff999''),
      redeploy = \<lparr>agent = Agent_ran stages_ok, sh = docker_ok\<rparr>, sleep_fault = None\<rparr>"

text \<open>An iteration that finds nothing new and is interrupted while it sleeps.\<close>

definition sleepy_tick :: tick where
  "sleepy_tick =
     \<lparr>log_fault = None, polled = Heads (Some ''abc123'') (Some ''def456''),
      redeploy = \<lparr>agent = Agent_ran stages_ok, sh = docker_ok\<rparr>,
      sleep_fault = Some KeyboardInterrupt\<rparr>"

text \<open>
  A working tree with a local \<^verbatim>\<open>Dockerfile\<close> and a file the repository does not have, and
  the walk of a fetched snapshot that brings its own \<^verbatim>\<open>Dockerfile\<close>.
\<close>

definition local_tree :: tree where
  "local_tree =
     [([], Dir), ([''Dockerfile''], File ''local''), ([''app.py''], File ''old''),
      ([''notes.txt''], File ''mine'')]"

definition upstream_walk :: walk where
  "upstream_walk =
     [([], [(''Dockerfile'', ''upstream''), (''app.py'', ''new'')]), ([''src''], [(''m.py'', ''x'')])]"

definition no_faults :: faults where
  "no_faults = (\<lambda>attempt dst. None)"

definition empty_zip_env :: fetch_env where
  "empty_zip_env =
     \<lparr>github_token = Some ''token'', locator_ok = True,
      downloaded = Zip \<lparr>zip_members = [], extracted = [([], Dir)]\<rparr>,
      copy_faults = no_faults, rename_ok = True, listable = True\<rparr>"

definition ready_host :: host where
  "ready_host =
     \<lparr>compose_yml = True,
      frontend_dir = [([], Dir), ([''package.json''], File ''{}'')],
      backend_dir = [([], Dir), ([''requirements.txt''], File ''flask'')],
      frontend_listable = True, backend_listable = True, docker = docker_ok\<rparr>"

definition unready_host :: host where
  "unready_host =
     \<lparr>compose_yml = True,
      frontend_dir = [([], Dir), ([''package.json''], File ''{}'')],
      backend_dir = [([], Dir), ([''app.py''], File ''x'')],
      frontend_listable = True, backend_listable = True, docker = docker_ok\<rparr>"

section \<open>Unfolding rules for concrete inputs\<close>

lemmas tree_defs = lookup_def path_exists_def is_dir_def store_def iterdir_def mkdir_parents_def

lemmas merge_defs = merge_directories_def copy_file_def copy2_def preserve_files_def Let_def

lemmas redeploy_defs = trigger_redeploy_def returncode_def agent_main_def agent_run_def
  compose_commands_def
  rebuild_cmd_def caught_def is_Exception_def stages_ok_def docker_ok_def all_stages_ok_def

lemmas watcher_defs = try_block_def check_for_updates_def updated_def py_and_def py_or_def
  commit_def cycle_triggered_def has_changed_def

section \<open>Facts about the watcher\<close>

lemma has_changed_iff:
  "has_changed last_sha sha \<longleftrightarrow> (\<exists>s. sha = Some s \<and> s \<noteq> [] \<and> last_sha \<noteq> Some s)"
  by (cases sha) (auto simp: has_changed_def updated_def py_and_def)

lemma check_heads:
  "check_for_updates w (Heads fe be) =
     Returns (has_changed (fe_last_sha w) fe \<or> has_changed (be_last_sha w) be, fe, be)"
  by (auto simp: check_for_updates_def has_changed_def py_or_def Let_def)

lemma truthy_of_sha: "truthy (of_sha x) \<longleftrightarrow> (\<exists>s. x = Some s \<and> s \<noteq> [])"
  by (cases x) auto

lemma commit_fe:
  "fe_last_sha (commit w fe be) = (if truthy (of_sha fe) then fe else fe_last_sha w)"
  by (simp add: commit_def Let_def)

lemma commit_be:
  "be_last_sha (commit w fe be) = (if truthy (of_sha be) then be else be_last_sha w)"
  by (simp add: commit_def Let_def)

lemma not_changed_after_commit:
  "\<not> has_changed (fe_last_sha (commit w fe be)) fe"
  "\<not> has_changed (be_last_sha (commit w fe be)) be"
  by (auto simp: has_changed_iff commit_fe commit_be truthy_of_sha)

lemma try_block_cases:
  "try_block w t = (x, w') \<Longrightarrow>
     w' = w \<or>
     (\<exists>fe be. log_fault t = None \<and> check_for_updates w (polled t) = Returns (True, fe, be) \<and>
        fst (trigger_redeploy (redeploy t)) = Returns True \<and> w' = commit w fe be \<and> x = None)"
  by (auto simp: try_block_def split: option.splits io.splits if_splits prod.splits)

lemma try_block_success:
  "log_fault t = None \<Longrightarrow> check_for_updates w (polled t) = Returns (True, fe, be) \<Longrightarrow>
   fst (trigger_redeploy (redeploy t)) = Returns True \<Longrightarrow> try_block w t = (None, commit w fe be)"
  by (simp add: try_block_def)

lemma try_block_idle: "\<not> cycle_triggered w t \<Longrightarrow> snd (try_block w t) = w"
  by (auto simp: try_block_def cycle_triggered_def split: option.splits io.splits prod.splits)

lemma try_block_failed:
  "fst (trigger_redeploy (redeploy t)) \<noteq> Returns True \<Longrightarrow> snd (try_block w t) = w"
  by (auto simp: try_block_def split: option.splits io.splits prod.splits)

lemma agent_run_True: "fst (agent_run st) = Returns True \<longleftrightarrow> all_stages_ok st"
  by (auto simp: agent_run_def all_stages_ok_def)

lemma agent_main_zero: "agent_main st = 0 \<longleftrightarrow> all_stages_ok st"
  by (auto simp: agent_main_def agent_run_True[symmetric] split: io.splits)


lemma trigger_redeploy_True:
  "fst (trigger_redeploy env) = Returns True \<Longrightarrow>
     (\<exists>st. agent env = Agent_ran st \<and> all_stages_ok st) \<and>
     fst (try_compose (sh env) compose_commands) = Returns (Some 0)"
  by (auto simp: trigger_redeploy_def returncode_def caught_def agent_main_zero
           split: agent_proc.splits if_splits prod.splits io.splits option.splits)

lemma trigger_redeploy_stage_failed:
  "agent env = Agent_ran st \<Longrightarrow> \<not> all_stages_ok st \<Longrightarrow>
     trigger_redeploy env = (Returns False, [])"
  by (simp add: trigger_redeploy_def returncode_def agent_main_zero)

lemma second_poll_quiet:
  assumes "log_fault t = None" "polled t = Heads fe be" "polled t' = Heads fe be"
    "cycle_triggered w t \<longrightarrow> fst (trigger_redeploy (redeploy t)) = Returns True"
  shows "\<not> cycle_triggered (snd (try_block w t)) t'"
proof (cases "cycle_triggered w t")
  case True
  with assms(1,2) have "check_for_updates w (polled t) = Returns (True, fe, be)"
    by (auto simp: cycle_triggered_def check_heads)
  with assms(1,4) True have "try_block w t = (None, commit w fe be)"
    by (simp add: try_block_success)
  then show ?thesis using assms(3)
    by (simp add: cycle_triggered_def check_heads not_changed_after_commit split: option.splits)
next
  case False
  then have "snd (try_block w t) = w" by (rule try_block_idle)
  with False assms(1,2,3) show ?thesis
    by (simp add: cycle_triggered_def check_heads split: option.splits)
qed

lemma startup_quiet:
  "startup init_watcher (Heads fe be) = Returns w0 \<Longrightarrow> polled t' = Heads fe be \<Longrightarrow>
     \<not> cycle_triggered w0 t'"
  by (auto simp: startup_def cycle_triggered_def check_heads has_changed_iff split: option.splits)

lemma try_block_fe_kept: "fe_last_sha w \<noteq> None \<Longrightarrow> fe_last_sha (snd (try_block w t)) \<noteq> None"
  by (cases "try_block w t") (auto dest!: try_block_cases simp: commit_fe truthy_of_sha)

lemma try_block_be_kept: "be_last_sha w \<noteq> None \<Longrightarrow> be_last_sha (snd (try_block w t)) \<noteq> None"
  by (cases "try_block w t") (auto dest!: try_block_cases simp: commit_be truthy_of_sha)

lemma try_block_fe_truthy:
  "truthy (of_sha (fe_last_sha w)) \<Longrightarrow> truthy (of_sha (fe_last_sha (snd (try_block w t))))"
  by (cases "try_block w t") (auto dest!: try_block_cases simp: commit_fe)

lemma try_block_be_truthy:
  "truthy (of_sha (be_last_sha w)) \<Longrightarrow> truthy (of_sha (be_last_sha (snd (try_block w t))))"
  by (cases "try_block w t") (auto dest!: try_block_cases simp: commit_be)

lemma try_block_fe_absent:
  "polled t = Heads None be \<Longrightarrow> fe_last_sha (snd (try_block w t)) = fe_last_sha w"
  by (cases "try_block w t") (auto dest!: try_block_cases simp: commit_fe check_heads)

lemma try_block_be_absent:
  "polled t = Heads fe None \<Longrightarrow> be_last_sha (snd (try_block w t)) = be_last_sha w"
  by (cases "try_block w t") (auto dest!: try_block_cases simp: commit_be check_heads)

lemma run_loop_step:
  "snd (run_loop w (t # ts)) = snd (try_block w t) \<or>
   snd (run_loop w (t # ts)) = snd (run_loop (snd (try_block w t)) ts)"
  by (cases "try_block w t") (auto split: option.splits)

text \<open>A property of the watcher that every iteration keeps is kept by the whole loop.\<close>

lemma run_loop_inv:
  assumes step: "\<And>w t. P w \<Longrightarrow> P (snd (try_block w t))"
  shows "P w \<Longrightarrow> P (snd (run_loop w ts))"
proof (induction ts arbitrary: w)
  case Nil
  then show ?case by simp
next
  case (Cons t ts)
  have "P (snd (try_block w t))" using Cons.prems by (rule step)
  moreover from this have "P (snd (run_loop (snd (try_block w t)) ts))" by (rule Cons.IH)
  ultimately show ?case using run_loop_step[of w t ts] by auto
qed

lemma run_loop_append:
  "run_loop w (ts @ ts') =
     (if fst (run_loop w ts) = Running then run_loop (snd (run_loop w ts)) ts' else run_loop w ts)"
proof (induction ts arbitrary: w)
  case Nil
  then show ?case by simp
next
  case (Cons t ts)
  then show ?case
    by (cases "try_block w t") (auto split: option.splits)
qed

lemma run_append:
  "snd (run p (ts @ ts')) = snd (run p ts) \<or>
   snd (run p (ts @ ts')) = snd (run_loop (snd (run p ts)) ts')"
  by (auto simp: run_def run_loop_append split: io.splits)

text \<open>
  Errors do not end the loop: as long as no sleep is disturbed and no interrupt leaves the
  \<^verbatim>\<open>try\<close> block, the loop is still running after any number of iterations.
\<close>

lemma run_loop_goes_on:
  "(\<And>t. t \<in> set ts \<Longrightarrow> sleep_fault t = None) \<Longrightarrow>
   (\<And>w' t. t \<in> set ts \<Longrightarrow> fst (try_block w' t) \<noteq> Some KeyboardInterrupt) \<Longrightarrow>
   fst (run_loop w ts) = Running"
proof (induction ts arbitrary: w)
  case Nil
  then show ?case by simp
next
  case (Cons t ts)
  have rest: "fst (run_loop w' ts) = Running" for w'
    using Cons.prems by (intro Cons.IH) auto
  have quiet: "sleep_fault t = None" using Cons.prems(1) by simp
  have "fst (try_block w t) \<noteq> Some KeyboardInterrupt" using Cons.prems(2) by simp
  then show ?case using rest quiet
    by (cases "try_block w t") (auto simp: is_Exception_def split: option.splits)
qed

section \<open>Facts about trees and the merge\<close>

lemma lookup_store: "lookup (store t p e) q = (if q = p then Some e else lookup t q)"
  by (simp add: lookup_def store_def update_conv')

lemma mkdir_rev_keeps:
  "mkdir_rev t rp = Inr t' \<Longrightarrow> lookup t q = Some e \<Longrightarrow> lookup t' q = Some e"
proof (induction rp arbitrary: t')
  case Nil
  then show ?case
    by (auto simp: lookup_store split: option.splits entry.splits)
next
  case (Cons n rp)
  then show ?case
    by (auto simp: lookup_store split: option.splits entry.splits sum.splits)
qed

lemma mkdir_parents_keeps:
  "mkdir_parents t p = Inr t' \<Longrightarrow> lookup t q = Some e \<Longrightarrow> lookup t' q = Some e"
  unfolding mkdir_parents_def by (rule mkdir_rev_keeps)

lemma same_kind_refl: "same_kind e e"
  by (cases e) auto

lemma same_kind_trans: "same_kind a b \<Longrightarrow> same_kind b c \<Longrightarrow> same_kind a c"
  by (cases a; cases b; cases c) auto




lemma copy2_kind:
  "copy2 f t file c tf = (x, t') \<Longrightarrow> lookup t q = Some e \<Longrightarrow>
   \<exists>e'. lookup t' q = Some e' \<and> same_kind e e'"
  by (cases e)
     (auto simp: copy2_def Let_def lookup_store is_dir_def same_kind_refl
           split: if_splits option.splits copy_fault.splits)

text \<open>The second attempt starts from the tree the first one left.\<close>

lemma copy_file_attempts:
  assumes "copy_file flt t file c tf = (x, t')"
  obtains x1 where "copy2 (flt 0) t file c tf = (x1, t')"
  | x1 t1 where "copy2 (flt 0) t file c tf = (x1, t1)" "copy2 (flt 1) t1 file c tf = (x, t')"
proof (cases "copy2 (flt 0) t file c tf")
  case (Pair x1 t1)
  show ?thesis
  proof (cases "x1 = Some PermissionError")
    case True
    with assms Pair have "copy2 (flt 1) t1 file c tf = (x, t')"
      by (simp add: copy_file_def)
    with Pair show ?thesis by (rule that(2))
  next
    case False
    with assms Pair have "t' = t1"
      by (auto simp: copy_file_def split: option.splits if_splits)
    with Pair show ?thesis by (auto intro: that(1))
  qed
qed



lemma copy_file_kind:
  assumes "copy_file flt t file c tf = (x, t')" and "lookup t q = Some e"
  shows "\<exists>e'. lookup t' q = Some e' \<and> same_kind e e'"
  using assms(1)
proof (cases rule: copy_file_attempts)
  case (1 x1)
  then show ?thesis using assms(2) by (rule copy2_kind)
next
  case (2 x1 t1)
  from copy2_kind[OF 2(1) assms(2)] obtain e1
    where e1: "lookup t1 q = Some e1" "same_kind e e1" by blast
  from copy2_kind[OF 2(2) e1(1)] obtain e2
    where "lookup t' q = Some e2" "same_kind e1 e2" by blast
  with e1(2) show ?thesis by (blast intro: same_kind_trans)
qed



lemma copy_files_kind:
  "copy_files flt t subdir files = (x, t') \<Longrightarrow> lookup t q = Some e \<Longrightarrow>
   \<exists>e'. lookup t' q = Some e' \<and> same_kind e e'"
proof (induction files arbitrary: t e)
  case Nil
  then show ?case by (auto simp: same_kind_refl)
next
  case (Cons a files)
  obtain fname c where a: "a = (fname, c)" by (cases a)
  show ?case
  proof (cases "fname \<in> preserve_files \<and> path_exists t (subdir @ [fname])")
    case True
    with Cons.prems a have "copy_files flt t subdir files = (x, t')" by simp
    then show ?thesis using Cons.prems(2) by (rule Cons.IH)
  next
    case False
    obtain x1 t1 where c1: "copy_file flt t fname c (subdir @ [fname]) = (x1, t1)"
      by (cases "copy_file flt t fname c (subdir @ [fname])")
    from copy_file_kind[OF c1 Cons.prems(2)] obtain e1
      where e1: "lookup t1 q = Some e1" "same_kind e e1" by blast
    show ?thesis
    proof (cases x1)
      case None
      with Cons.prems(1) a False c1 have "copy_files flt t1 subdir files = (x, t')"
        by (simp add: Let_def)
      from Cons.IH[OF this e1(1)] obtain e2
        where "lookup t' q = Some e2" "same_kind e1 e2" by blast
      with e1(2) show ?thesis by (blast intro: same_kind_trans)
    next
      case (Some ex)
      with Cons.prems(1) a False c1 have "t' = t1" by (simp add: Let_def)
      with e1 show ?thesis by blast
    qed
  qed
qed

text \<open>One item of the walk: the directory is made, then its files are copied.\<close>

lemma merge_walk_item:
  assumes "merge_walk flt t ((rel_path, files) # rest) = (x, t')"
  obtains "t' = t"
  | t1 x2 where "\<And>q e. lookup t q = Some e \<Longrightarrow> lookup t1 q = Some e"
      "copy_files flt t1 rel_path files = (x2, t')"
  | t1 t2 where "\<And>q e. lookup t q = Some e \<Longrightarrow> lookup t1 q = Some e"
      "copy_files flt t1 rel_path files = (None, t2)" "merge_walk flt t2 rest = (x, t')"
proof (cases "if rel_path = [] then Inr t else mkdir_parents t rel_path")
  case (Inl ex)
  with assms have "t' = t" by simp
  then show ?thesis by (rule that(1))
next
  case (Inr t1)
  have k1: "lookup t1 q = Some e" if "lookup t q = Some e" for q e
    using Inr that by (auto split: if_splits dest: mkdir_parents_keeps)
  obtain x2 t2 where c2: "copy_files flt t1 rel_path files = (x2, t2)"
    by (cases "copy_files flt t1 rel_path files")
  show ?thesis
  proof (cases x2)
    case None
    with assms Inr c2 have rest: "merge_walk flt t2 rest = (x, t')" by simp
    from c2 None have files: "copy_files flt t1 rel_path files = (None, t2)" by simp
    show ?thesis
    proof (rule that(3))
      show "lookup t q = Some e \<Longrightarrow> lookup t1 q = Some e" for q e by (rule k1)
      show "copy_files flt t1 rel_path files = (None, t2)" by (rule files)
      show "merge_walk flt t2 rest = (x, t')" by (rule rest)
    qed
  next
    case (Some ex)
    with assms Inr c2 have "t' = t2" by simp
    with c2 have files: "copy_files flt t1 rel_path files = (x2, t')" by simp
    show ?thesis
    proof (rule that(2))
      show "lookup t q = Some e \<Longrightarrow> lookup t1 q = Some e" for q e by (rule k1)
      show "copy_files flt t1 rel_path files = (x2, t')" by (rule files)
    qed
  qed
qed


lemma merge_walk_kind:
  "merge_walk flt t w = (x, t') \<Longrightarrow> lookup t q = Some e \<Longrightarrow>
   \<exists>e'. lookup t' q = Some e' \<and> same_kind e e'"
proof (induction w arbitrary: t e)
  case Nil
  then show ?case by (auto simp: same_kind_refl)
next
  case (Cons a w)
  obtain rel_path files where a: "a = (rel_path, files)" by (cases a)
  from Cons.prems(1) show ?case unfolding a
  proof (cases rule: merge_walk_item)
    case 1
    with Cons.prems(2) show ?thesis by (auto simp: same_kind_refl)
  next
    case (2 t1 x2)
    have "lookup t1 q = Some e" using Cons.prems(2) by (rule 2(1))
    with 2(2) show ?thesis by (rule copy_files_kind)
  next
    case (3 t1 t2)
    have "lookup t1 q = Some e" using Cons.prems(2) by (rule 3(1))
    from copy_files_kind[OF 3(2) this] obtain e2
      where e2: "lookup t2 q = Some e2" "same_kind e e2" by blast
    from Cons.IH[OF 3(3) e2(1)] obtain e3
      where "lookup t' q = Some e3" "same_kind e2 e3" by blast
    with e2(2) show ?thesis by (blast intro: same_kind_trans)
  qed
qed


lemma merge_directories_kind:
  assumes "lookup target q = Some e"
  shows "\<exists>e'. lookup (snd (merge_directories flt w target)) q = Some e' \<and> same_kind e e'"
proof (cases "mkdir_parents target []")
  case (Inl ex)
  then show ?thesis using assms by (auto simp: merge_directories_def same_kind_refl)
next
  case (Inr t0)
  have k0: "lookup t0 q = Some e"
    using Inr assms by (rule mkdir_parents_keeps)
  obtain x t' where m: "merge_walk flt t0 w = (x, t')" by (cases "merge_walk flt t0 w")
  from merge_walk_kind[OF m k0] Inr m show ?thesis by (simp add: merge_directories_def)
qed

text \<open>
  A fetch into a target that exists leaves the tree as it was or as the merge left it.
\<close>

lemma merged_tree:
  "fst (snd (case merge_directories flt w target of
               (Some e, t') \<Rightarrow> (False, t', [Merged])
             | (None, t') \<Rightarrow> (v t', t', [Merged]))) = snd (merge_directories flt w target)"
  by (auto split: prod.splits option.splits)

lemma clone_repository_tree:
  assumes "path_exists target []"
  shows "fst (snd (clone_repository env target)) = target \<or>
     (\<exists>w. fst (snd (clone_repository env target)) = snd (merge_directories (copy_faults env) w target))"
proof (cases "downloaded env")
  case (Zip a)
  show ?thesis
  proof (cases "zip_members a")
    case Nil
    with Zip show ?thesis by (simp add: clone_repository_def)
  next
    case (Cons first_member others)
    with Zip assms show ?thesis
      by (simp add: clone_repository_def Let_def merged_tree) blast
  qed
qed (simp_all add: clone_repository_def)

section \<open>Facts about building and deploying\<close>

lemma verify_repo_cloned_iff:
  "verify_repo_cloned l t req \<longleftrightarrow>
     is_dir t [] \<and> l \<and> iterdir t [] \<noteq> [] \<and> (\<forall>f \<in> set req. path_exists t [f])"
  by (auto simp: verify_repo_cloned_def is_dir_def path_exists_def filter_empty_conv)

lemma build_trace_nonempty:
  "snd (build_docker_images h) \<noteq> [] \<longleftrightarrow>
     compose_yml h \<and> verify_repo_cloned (frontend_listable h) (frontend_dir h) [] \<and>
     verify_repo_cloned (backend_listable h) (backend_dir h) [''requirements.txt'']"
  by (auto simp: build_docker_images_def Let_def split: io.splits)

lemma run_all_trace: "set (snd (run_all s cmds)) \<subseteq> set cmds"
  by (induction cmds) (auto split: proc_result.splits prod.splits)

lemma cleanup_trace: "set (snd (cleanup s images)) \<subseteq> (\<Union>i \<in> set images. set (prune_and_rmi i))"
proof (induction images)
  case Nil
  then show ?case by simp
next
  case (Cons image_name rest)
  have "set (snd (run_all s (prune_and_rmi image_name))) \<subseteq> set (prune_and_rmi image_name)"
    by (rule run_all_trace)
  with Cons show ?case
    by (cases "run_all s (prune_and_rmi image_name)"; cases "cleanup s rest")
       (auto split: option.splits if_splits)
qed

text \<open>
  The agent's own \<^verbatim>\<open>deploy\<close> runs nothing but the probe, the stop and the removal of the
  two named containers, one bring-up that carries \<^verbatim>\<open>--no-deps\<close>, and the image clean-up.
\<close>

lemma deploy_trace:
  "set (snd (deploy h)) \<subseteq>
     {compose_version_cmd, up_cmd True, up_cmd False} \<union>
     (\<Union>c \<in> set containers_to_remove. set (stop_and_remove c)) \<union>
     (\<Union>i \<in> set old_images. set (prune_and_rmi i))"
proof -
  let ?stops = "concat (map stop_and_remove containers_to_remove)"
  have 1: "set (snd (run_all (docker h) ?stops)) \<subseteq> (\<Union>c \<in> set containers_to_remove. set (stop_and_remove c))"
    using run_all_trace[of "docker h" ?stops] by auto
  have 2: "set (snd (cleanup (docker h) old_images)) \<subseteq> (\<Union>i \<in> set old_images. set (prune_and_rmi i))"
    by (rule cleanup_trace)
  show ?thesis
  proof (cases "compose_v2 (docker h)")
    case (Raises e)
    then show ?thesis by (simp add: deploy_def)
  next
    case (Returns v2)
    obtain r1 tr1 where s1: "run_all (docker h) ?stops = (r1, tr1)"
      by (cases "run_all (docker h) ?stops")
    obtain r2 tr2 where s2: "cleanup (docker h) old_images = (r2, tr2)"
      by (cases "cleanup (docker h) old_images")
    from 1 s1 have t1: "set tr1 \<subseteq> (\<Union>c \<in> set containers_to_remove. set (stop_and_remove c))" by simp
    from 2 s2 have t2: "set tr2 \<subseteq> (\<Union>i \<in> set old_images. set (prune_and_rmi i))" by simp
    have "set (snd (deploy h)) \<subseteq> {compose_version_cmd, up_cmd v2} \<union> set tr1 \<union> set tr2"
      using Returns s1 s2
      by (auto simp: deploy_def split: option.splits io.splits bool.splits)
    with t1 t2 show ?thesis by (cases v2) auto
  qed
qed

lemma up_cmd_no_deps: "''--no-deps'' \<in> set (up_cmd v2)"
  by (simp add: up_cmd_def)

section \<open>The claims\<close>

text \<open>
  Claim C1. The stored revisions change only at the end of a fully successful deploy cycle.
  If the watcher after the \<^verbatim>\<open>try\<close> block of an iteration differs from the watcher before
  it, then the agent ran with all six stages (both fetches, both preparations, build,
  deploy) returning \<^verbatim>\<open>True\<close>, the watcher's own rebuild command exited with 0, and the new
  watcher is the one commit of the revisions that this iteration's poll returned. If any
  stage of the agent does not return \<^verbatim>\<open>True\<close>, or \<^verbatim>\<open>trigger_redeploy\<close> does not return
  \<^verbatim>\<open>True\<close> for any other reason, both stored revisions are exactly what they were. The
  sleep after the block changes nothing.
\<close>

theorem revisions_committed_only_on_success:
  "(snd (try_block w t) \<noteq> w \<longrightarrow>
      (\<exists>st fe be. agent (redeploy t) = Agent_ran st \<and> all_stages_ok st \<and>
         fst (try_compose (sh (redeploy t)) compose_commands) = Returns (Some 0) \<and>
         check_for_updates w (polled t) = Returns (True, fe, be) \<and>
         try_block w t = (None, commit w fe be))) \<and>
   (agent (redeploy t) = Agent_ran st' \<and> \<not> all_stages_ok st' \<longrightarrow> snd (try_block w t) = w) \<and>
   (fst (trigger_redeploy (redeploy t)) \<noteq> Returns True \<longrightarrow> snd (try_block w t) = w) \<and>
   snd (run_loop w [t]) = snd (try_block w t)"
proof -
  have only_on_success:
    "\<exists>st fe be. agent (redeploy t) = Agent_ran st \<and> all_stages_ok st \<and>
         fst (try_compose (sh (redeploy t)) compose_commands) = Returns (Some 0) \<and>
         check_for_updates w (polled t) = Returns (True, fe, be) \<and>
         try_block w t = (None, commit w fe be)"
    if changed: "snd (try_block w t) \<noteq> w"
  proof -
    obtain x w' where tb: "try_block w t = (x, w')" by (cases "try_block w t")
    with changed have "w' \<noteq> w" by simp
    with try_block_cases[OF tb] obtain fe be where
      *: "check_for_updates w (polled t) = Returns (True, fe, be)"
         "fst (trigger_redeploy (redeploy t)) = Returns True" "w' = commit w fe be" "x = None"
      by blast
    from trigger_redeploy_True[OF *(2)] obtain st where
      "agent (redeploy t) = Agent_ran st" "all_stages_ok st"
      "fst (try_compose (sh (redeploy t)) compose_commands) = Returns (Some 0)" by blast
    with * tb show ?thesis by blast
  qed
  have stage_failed: "snd (try_block w t) = w"
    if "agent (redeploy t) = Agent_ran st' \<and> \<not> all_stages_ok st'"
  proof -
    from that have "trigger_redeploy (redeploy t) = (Returns False, [])"
      by (simp add: trigger_redeploy_stage_failed)
    then show ?thesis by (simp add: try_block_failed)
  qed
  have redeploy_failed: "snd (try_block w t) = w"
    if "fst (trigger_redeploy (redeploy t)) \<noteq> Returns True"
    using that by (rule try_block_failed)
  have sleep: "snd (run_loop w [t]) = snd (try_block w t)"
    by (cases "try_block w t") (auto split: option.splits)
  from only_on_success stage_failed redeploy_failed sleep show ?thesis by blast
qed

theorem revisions_committed_only_on_success_witness:
  "snd (try_block w_start good_tick) \<noteq> w_start \<and>
   try_block w_start good_tick =
     (None, \<lparr>fe_last_sha = Some ''abc123'', be_last_sha = Some ''def456''\<rparr>) \<and>
   agent (redeploy bad_tick) = Agent_ran (stages_ok\<lparr>build_images := Returns False\<rparr>) \<and>
   \<not> all_stages_ok (stages_ok\<lparr>build_images := Returns False\<rparr>) \<and>
   fst (trigger_redeploy (redeploy bad_tick)) \<noteq> Returns True \<and>
   snd (try_block w_start bad_tick) = w_start"
  using revisions_committed_only_on_success [of w_start good_tick stages_ok]
    revisions_committed_only_on_success [of w_start bad_tick "stages_ok\<lparr>build_images := Returns False\<rparr>"]
  by (simp add: w_start_def good_tick_def bad_tick_def watcher_defs redeploy_defs)



text \<open>
  Claim C3. The merge only adds and overwrites. Every path that exists in the target before
  \<^verbatim>\<open>_merge_directories\<close> runs exists afterwards, a directory still as a directory and a
  file still as a file; this covers in particular the paths that the fetched source does not
  have. It holds for every source, for every way the copies can fail, also when the merge
  ends with an exception, and for every \<^verbatim>\<open>clone_repository\<close> into a target that exists.
\<close>

theorem merge_is_additive:
  assumes "lookup target p = Some e"
  shows "(\<exists>e'. lookup (snd (merge_directories flt source_walk target)) p = Some e' \<and> same_kind e e') \<and>
    path_exists (snd (merge_directories flt source_walk target)) p \<and>
    (path_exists target [] \<longrightarrow>
       (\<exists>e'. lookup (fst (snd (clone_repository env target))) p = Some e' \<and> same_kind e e'))"
proof -
  have merged: "\<exists>e'. lookup (snd (merge_directories flt' w target)) p = Some e' \<and> same_kind e e'"
    for flt' w
    using assms by (rule merge_directories_kind)
  have "\<exists>e'. lookup (fst (snd (clone_repository env target))) p = Some e' \<and> same_kind e e'"
    if "path_exists target []"
    using clone_repository_tree[OF that, of env] merged assms by (auto simp: same_kind_refl)
  with merged[of flt source_walk] show ?thesis by (auto simp: path_exists_def)
qed

theorem merge_is_additive_witness:
  "lookup local_tree [''notes.txt''] = Some (File ''mine'') \<and>
   [''notes.txt''] \<notin> set (map (\<lambda>(d, files). d) upstream_walk) \<and>
   (\<exists>e'. lookup (snd (merge_directories no_faults upstream_walk local_tree)) [''notes.txt''] = Some e' \<and>
      same_kind (File ''mine'') e') \<and>
   path_exists (snd (merge_directories no_faults upstream_walk local_tree)) [''notes.txt'']"
  using merge_is_additive
    [of local_tree "[''notes.txt'']" "File ''mine''" no_faults upstream_walk empty_zip_env]
  by (simp add: no_faults_def upstream_walk_def local_tree_def merge_defs tree_defs)

text \<open>
  Claim C4. The change test of \<^verbatim>\<open>check_for_updates\<close> is true exactly when the new
  revision is a non-empty string that differs from the stored value; a stored \<^verbatim>\<open>None\<close>
  differs from every such string. The flag that \<^verbatim>\<open>check_for_updates\<close> returns is the
  disjunction of the two tests. Right after the commit of the observed revisions the test is
  false for both repositories, so a poll that returns the same revisions again finds no
  update. For two consecutive iterations whose polls return the same revisions: when the
  first one committed them (its deploy cycle succeeded) or had nothing to deploy, the
  second one starts no deploy cycle; the same holds for the first iteration after a startup
  query with the same answer.
\<close>

theorem change_predicate:
  "(has_changed last_sha sha \<longleftrightarrow> (\<exists>s. sha = Some s \<and> s \<noteq> [] \<and> last_sha \<noteq> Some s)) \<and>
   (s \<noteq> [] \<longrightarrow> has_changed None (Some s)) \<and>
   check_for_updates w (Heads fe be) =
     Returns (has_changed (fe_last_sha w) fe \<or> has_changed (be_last_sha w) be, fe, be) \<and>
   \<not> has_changed (fe_last_sha (commit w fe be)) fe \<and>
   \<not> has_changed (be_last_sha (commit w fe be)) be \<and>
   check_for_updates (commit w fe be) (Heads fe be) = Returns (False, fe, be) \<and>
   (log_fault t = None \<and> polled t = Heads fe be \<and> polled t' = Heads fe be \<and>
    (cycle_triggered w t \<longrightarrow> fst (trigger_redeploy (redeploy t)) = Returns True)
      \<longrightarrow> \<not> cycle_triggered (snd (try_block w t)) t') \<and>
   (startup init_watcher (Heads fe be) = Returns w0 \<and> polled t' = Heads fe be
      \<longrightarrow> \<not> cycle_triggered w0 t')"
proof -
  have unknown: "has_changed None (Some s)" if "s \<noteq> []"
    using that by (simp add: has_changed_iff)
  have again: "check_for_updates (commit w fe be) (Heads fe be) = Returns (False, fe, be)"
    by (simp add: check_heads not_changed_after_commit)
  have quiet: "\<not> cycle_triggered (snd (try_block w t)) t'"
    if "log_fault t = None \<and> polled t = Heads fe be \<and> polled t' = Heads fe be \<and>
        (cycle_triggered w t \<longrightarrow> fst (trigger_redeploy (redeploy t)) = Returns True)"
    using that by (intro second_poll_quiet[of t fe be t' w]) simp_all
  have first: "\<not> cycle_triggered w0 t'"
    if "startup init_watcher (Heads fe be) = Returns w0 \<and> polled t' = Heads fe be"
    using that by (intro startup_quiet[of fe be w0 t']) simp_all
  from unknown again quiet first show ?thesis
    by (simp add: has_changed_iff check_heads not_changed_after_commit)
qed

theorem change_predicate_witness:
  "has_changed None (Some ''abc123'') \<and>
   \<not> has_changed (Some ''def456'') (Some ''def456'') \<and>
   \<not> has_changed (Some ''def456'') None \<and>
   cycle_triggered w_start good_tick \<and>
   fst (trigger_redeploy (redeploy good_tick)) = Returns True \<and>
   polled bad_tick = polled good_tick \<and>
   \<not> cycle_triggered (snd (try_block w_start good_tick)) bad_tick \<and>
   startup init_watcher (polled good_tick) = Returns (snd (try_block w_start good_tick)) \<and>
   \<not> cycle_triggered (snd (try_block w_start good_tick)) good_tick"
  using change_predicate
    [of None "Some ''abc123''" "''abc123''" w_start "Some ''abc123''" "Some ''def456''" good_tick bad_tick
        "snd (try_block w_start good_tick)"]
    change_predicate [of "Some ''def456''" "Some ''def456''"]
    change_predicate [of "Some ''def456''" None]
  by (simp add: w_start_def good_tick_def bad_tick_def watcher_defs redeploy_defs
      startup_def init_watcher_def)

text \<open>
  Claim C5. When a poll returns a revision for each repository, at least one of them new,
  and the redeploy succeeds, a deploy cycle runs and both stored revisions become the
  revisions just observed, also the one that had not changed. The scenario of the claim is
  the witness: the frontend is unknown, the backend is recorded as \<open>def456\<close>, the poll returns
  \<open>abc123\<close> and \<open>def456\<close>; afterwards the watcher holds \<open>abc123\<close> and \<open>def456\<close>.
\<close>

theorem both_revisions_advanced:
  assumes "log_fault t = None" and "polled t = Heads (Some a) (Some b)"
    and "a \<noteq> []" and "b \<noteq> []"
    and "has_changed (fe_last_sha w) (Some a) \<or> has_changed (be_last_sha w) (Some b)"
    and "fst (trigger_redeploy (redeploy t)) = Returns True"
  shows "cycle_triggered w t \<and>
    try_block w t = (None, \<lparr>fe_last_sha = Some a, be_last_sha = Some b\<rparr>)"
proof -
  have chk: "check_for_updates w (polled t) = Returns (True, Some a, Some b)"
    using assms(2,5) by (simp add: check_heads)
  have "commit w (Some a) (Some b) = \<lparr>fe_last_sha = Some a, be_last_sha = Some b\<rparr>"
    using assms(3,4) by (simp add: commit_def)
  with chk assms(1,6) show ?thesis
    by (simp add: cycle_triggered_def try_block_success)
qed

theorem both_revisions_advanced_witness:
  "log_fault good_tick = None \<and> polled good_tick = Heads (Some ''abc123'') (Some ''def456'') \<and>
   fe_last_sha w_start = None \<and> be_last_sha w_start = Some ''def456'' \<and>
   has_changed (fe_last_sha w_start) (Some ''abc123'') \<and>
   \<not> has_changed (be_last_sha w_start) (Some ''def456'') \<and>
   fst (trigger_redeploy (redeploy good_tick)) = Returns True \<and>
   cycle_triggered w_start good_tick \<and>
   try_block w_start good_tick =
     (None, \<lparr>fe_last_sha = Some ''abc123'', be_last_sha = Some ''def456''\<rparr>)"
  using both_revisions_advanced [of good_tick "''abc123''" "''def456''" w_start]
  by (simp add: w_start_def good_tick_def watcher_defs redeploy_defs)

text \<open>
  Claim C6. \<^verbatim>\<open>build_docker_images\<close> is gated. If \<^verbatim>\<open>docker-compose.yml\<close> is missing, or
  the frontend tree fails \<^verbatim>\<open>verify_repo_cloned\<close>, or the backend tree fails it with
  \<^verbatim>\<open>requirements.txt\<close> required, the function returns \<^verbatim>\<open>False\<close> and has run no command
  at all. Whenever it has run any command (the probe or a build), the manifest exists, both
  trees are directories with at least one entry, and the backend has
  \<^verbatim>\<open>requirements.txt\<close>.
\<close>

theorem build_is_gated:
  "(\<not> compose_yml h \<or> \<not> verify_repo_cloned (frontend_listable h) (frontend_dir h) [] \<or>
    \<not> verify_repo_cloned (backend_listable h) (backend_dir h) [''requirements.txt'']
      \<longrightarrow> build_docker_images h = (Returns False, [])) \<and>
   (snd (build_docker_images h) \<noteq> [] \<longrightarrow>
      compose_yml h \<and>
      is_dir (frontend_dir h) [] \<and> iterdir (frontend_dir h) [] \<noteq> [] \<and>
      is_dir (backend_dir h) [] \<and> iterdir (backend_dir h) [] \<noteq> [] \<and>
      path_exists (backend_dir h) [''requirements.txt''])"
proof -
  have closed: "build_docker_images h = (Returns False, [])"
    if "\<not> compose_yml h \<or> \<not> verify_repo_cloned (frontend_listable h) (frontend_dir h) [] \<or>
        \<not> verify_repo_cloned (backend_listable h) (backend_dir h) [''requirements.txt'']"
    using that by (auto simp: build_docker_images_def)
  have opened: "compose_yml h \<and>
      is_dir (frontend_dir h) [] \<and> iterdir (frontend_dir h) [] \<noteq> [] \<and>
      is_dir (backend_dir h) [] \<and> iterdir (backend_dir h) [] \<noteq> [] \<and>
      path_exists (backend_dir h) [''requirements.txt'']"
    if "snd (build_docker_images h) \<noteq> []"
  proof -
    from that have "compose_yml h \<and>
        verify_repo_cloned (frontend_listable h) (frontend_dir h) [] \<and>
        verify_repo_cloned (backend_listable h) (backend_dir h) [''requirements.txt'']"
      by (simp only: build_trace_nonempty)
    then show ?thesis by (simp add: verify_repo_cloned_iff)
  qed
  from closed opened show ?thesis by blast
qed

theorem build_is_gated_witness:
  "\<not> verify_repo_cloned (backend_listable unready_host) (backend_dir unready_host)
       [''requirements.txt''] \<and>
   build_docker_images unready_host = (Returns False, []) \<and>
   build_docker_images ready_host = (Returns True, [compose_version_cmd, build_cmd_v2]) \<and>
   snd (build_docker_images ready_host) \<noteq> [] \<and>
   compose_yml ready_host \<and> path_exists (backend_dir ready_host) [''requirements.txt'']"
  using build_is_gated [of unready_host] build_is_gated [of ready_host]
  by (simp add: ready_host_def unready_host_def build_docker_images_def verify_repo_cloned_def
      tree_defs compose_v2_def checked_def docker_ok_def)

text \<open>
  Claim C7. The claim does not hold for the watcher. After the agent has exited with 0,
  \<^verbatim>\<open>trigger_redeploy\<close> brings the services up with
  \<^verbatim>\<open>up -d --build --force-recreate frontend backend\<close>: the command names the two services
  only, but it does not carry \<^verbatim>\<open>--no-deps\<close>, the flag that the agent's own \<^verbatim>\<open>deploy\<close>
  passes (see \<open>deploy_trace\<close> and \<open>up_cmd_no_deps\<close>) to keep the orchestrator from recreating
  the services they depend on. The theorem runs \<^verbatim>\<open>trigger_redeploy\<close> where every stage
  and every command succeeds.
\<close>

theorem watcher_bring_up_lacks_no_deps:
  "trigger_redeploy \<lparr>agent = Agent_ran stages_ok, sh = docker_ok\<rparr> =
     (Returns True,
      [[''docker'', ''compose'', ''version''],
       [''docker'', ''compose'', ''-p'', ''jalindeploy'', ''up'', ''-d'', ''--build'',
        ''--force-recreate'', ''frontend'', ''backend'']]) \<and>
   ''--no-deps'' \<notin> set (rebuild_cmd [''docker'', ''compose''] ''-p'') \<and>
   ''--no-deps'' \<notin> set (rebuild_cmd [''docker-compose''] ''--project-name'') \<and>
   ''--no-deps'' \<in> set (up_cmd True) \<and> ''--no-deps'' \<in> set (up_cmd False)"
  by (simp add: redeploy_defs up_cmd_def)

text \<open>
  Claim C8. The claim does not hold for an interrupt during the sleep. \<^verbatim>\<open>time.sleep\<close>
  stands after the \<^verbatim>\<open>try\<close> statement, outside of it, so a \<^verbatim>\<open>KeyboardInterrupt\<close> raised
  there is not caught by \<^verbatim>\<open>except KeyboardInterrupt: break\<close>: it leaves \<^verbatim>\<open>run\<close> and
  \<^verbatim>\<open>main\<close> uncaught and the process does not end with status 0. The same interrupt
  during the poll, inside the \<^verbatim>\<open>try\<close> block, ends the loop by \<^verbatim>\<open>break\<close>. (That errors
  inside the block do not end the loop is \<open>run_loop_goes_on\<close>.)
\<close>

theorem interrupt_during_sleep_is_uncaught:
  "run (Heads (Some ''abc123'') (Some ''def456'')) [sleepy_tick] =
     (Uncaught KeyboardInterrupt, \<lparr>fe_last_sha = Some ''abc123'', be_last_sha = Some ''def456''\<rparr>) \<and>
   \<not> exit_status_zero (fst (run (Heads (Some ''abc123'') (Some ''def456'')) [sleepy_tick])) \<and>
   fst (run (Heads (Some ''abc123'') (Some ''def456''))
          [sleepy_tick\<lparr>polled := Poll_interrupted, sleep_fault := None\<rparr>]) = Break"
  by (simp add: run_def startup_def init_watcher_def sleepy_tick_def watcher_defs redeploy_defs
      exit_status_zero_def)



text \<open>
  Claim C10. A stored revision never goes back to \<^verbatim>\<open>None\<close>. Whatever happens in any
  number of loop iterations, a stored revision that is not \<^verbatim>\<open>None\<close> stays so, and one
  that is a non-empty string stays one; for the whole of \<^verbatim>\<open>run\<close>, startup query
  included: once a revision is stored after some iterations, it is stored after any further
  ones. In an iteration whose poll returned no revision for one repository, that
  repository's stored revision keeps its value, also when the redeploy succeeds and the
  other one is advanced.
\<close>

theorem revision_never_reverts:
  "(fe_last_sha w \<noteq> None \<longrightarrow> fe_last_sha (snd (run_loop w ts)) \<noteq> None) \<and>
   (be_last_sha w \<noteq> None \<longrightarrow> be_last_sha (snd (run_loop w ts)) \<noteq> None) \<and>
   (truthy (of_sha (fe_last_sha w)) \<longrightarrow> truthy (of_sha (fe_last_sha (snd (run_loop w ts))))) \<and>
   (truthy (of_sha (be_last_sha w)) \<longrightarrow> truthy (of_sha (be_last_sha (snd (run_loop w ts))))) \<and>
   (fe_last_sha (snd (run p ts)) \<noteq> None \<longrightarrow> fe_last_sha (snd (run p (ts @ ts'))) \<noteq> None) \<and>
   (be_last_sha (snd (run p ts)) \<noteq> None \<longrightarrow> be_last_sha (snd (run p (ts @ ts'))) \<noteq> None) \<and>
   (polled t = Heads None be \<longrightarrow> fe_last_sha (snd (try_block w t)) = fe_last_sha w) \<and>
   (polled t = Heads fe None \<longrightarrow> be_last_sha (snd (try_block w t)) = be_last_sha w)"
proof -
  have fe_loop: "fe_last_sha (snd (run_loop v us)) \<noteq> None" if "fe_last_sha v \<noteq> None" for v us
  proof (rule run_loop_inv[where P = "\<lambda>w. fe_last_sha w \<noteq> None"])
    show "fe_last_sha (snd (try_block u t)) \<noteq> None" if "fe_last_sha u \<noteq> None" for u t
      using that by (rule try_block_fe_kept)
    show "fe_last_sha v \<noteq> None" by (rule that)
  qed
  have be_loop: "be_last_sha (snd (run_loop v us)) \<noteq> None" if "be_last_sha v \<noteq> None" for v us
  proof (rule run_loop_inv[where P = "\<lambda>w. be_last_sha w \<noteq> None"])
    show "be_last_sha (snd (try_block u t)) \<noteq> None" if "be_last_sha u \<noteq> None" for u t
      using that by (rule try_block_be_kept)
    show "be_last_sha v \<noteq> None" by (rule that)
  qed
  have fe_str: "truthy (of_sha (fe_last_sha (snd (run_loop w ts))))"
    if "truthy (of_sha (fe_last_sha w))"
  proof (rule run_loop_inv[where P = "\<lambda>w. truthy (of_sha (fe_last_sha w))"])
    show "truthy (of_sha (fe_last_sha (snd (try_block u t))))"
      if "truthy (of_sha (fe_last_sha u))" for u t
      using that by (rule try_block_fe_truthy)
    show "truthy (of_sha (fe_last_sha w))" by (rule that)
  qed
  have be_str: "truthy (of_sha (be_last_sha (snd (run_loop w ts))))"
    if "truthy (of_sha (be_last_sha w))"
  proof (rule run_loop_inv[where P = "\<lambda>w. truthy (of_sha (be_last_sha w))"])
    show "truthy (of_sha (be_last_sha (snd (try_block u t))))"
      if "truthy (of_sha (be_last_sha u))" for u t
      using that by (rule try_block_be_truthy)
    show "truthy (of_sha (be_last_sha w))" by (rule that)
  qed
  have fe_run: "fe_last_sha (snd (run p (ts @ ts'))) \<noteq> None"
    if "fe_last_sha (snd (run p ts)) \<noteq> None"
    using run_append[of p ts ts'] that fe_loop[of "snd (run p ts)" ts'] by auto
  have be_run: "be_last_sha (snd (run p (ts @ ts'))) \<noteq> None"
    if "be_last_sha (snd (run p ts)) \<noteq> None"
    using run_append[of p ts ts'] that be_loop[of "snd (run p ts)" ts'] by auto
  from fe_loop[of w ts] be_loop[of w ts] fe_str be_str fe_run be_run show ?thesis
    by (simp add: try_block_fe_absent try_block_be_absent)
qed

theorem revision_never_reverts_witness:
  "be_last_sha w_start \<noteq> None \<and>
   be_last_sha (snd (run_loop w_start [half_tick, bad_tick])) \<noteq> None \<and>
   polled half_tick = Heads None (Some ''fff999'') \<and>
   fst (trigger_redeploy (redeploy half_tick)) = Returns True \<and>
   try_block (w_start\<lparr>fe_last_sha := Some ''abc123''\<rparr>) half_tick =
     (None, \<lparr>fe_last_sha = Some ''abc123'', be_last_sha = Some ''fff999''\<rparr>) \<and>
   fe_last_sha (snd (try_block (w_start\<lparr>fe_last_sha := Some ''abc123''\<rparr>) half_tick)) = Some ''abc123''"
  using revision_never_reverts [of w_start "[half_tick, bad_tick]"]
    revision_never_reverts [of "w_start\<lparr>fe_last_sha := Some ''abc123''\<rparr>" "[]" "Heads None None" "[]"
      half_tick "Some ''fff999''"]
  by (simp add: w_start_def half_tick_def bad_tick_def watcher_defs redeploy_defs)

end
